theory Spec2Isabelle
  imports Main "HOL-Library.Multiset"
begin

section \<open>The documentation service of fluxible.io (src/services/docs.js)\<close>

text \<open>
  The service keeps three module-level values: the object \<open>cache\<close> (upstream path to
  rendered page), the array \<open>documents\<close> and the lunr \<open>index\<close>. A refresh resolves a git
  branch for two npm packages, fetches every route that has a \<open>githubPath\<close>, rewrites the
  links between the pages, and writes \<open>documents\<close> and the index to a file.

  Conventions of the embedding:
  \<^item> a JavaScript value that may be \<open>undefined\<close> is an \<open>option\<close>; \<open>truthy\<close> is the test
    that \<open>if (v)\<close> and \<open>v || w\<close> make on an optional string;
  \<^item> the reply that superagent hands to an \<open>end\<close> callback is either an error or a
    response (\<open>reply\<close>);
  \<^item> the packages the service calls (\<open>marked\<close> with the site's renderer, \<open>Buffer\<close>'s
    base64 decoding, \<open>url.resolve\<close>, \<open>semver.satisfies\<close>) are external; the
    functions take them as the record \<open>libs\<close>, as total functions (an exception thrown
    inside a package is not modelled);
  \<^item> the route table \<open>configs/routes\<close> is a parameter too, an association list in the
    order of \<open>Object.keys\<close>;
  \<^item> the lunr index is represented by the list of the documents handed to \<open>index.add\<close>,
    one element per call (lunr itself keeps one entry per \<open>id\<close>, so an \<open>id\<close> added twice
    stands twice in the list and once in lunr), and \<open>index.toJSON()\<close> by that list;
  \<^item> \<open>console.log\<close> and \<open>console.error\<close> append to the field \<open>console\<close> of the state;
    the calls of \<open>debug\<close> are left out.
\<close>

subsection \<open>JavaScript strings\<close>

definition DQ :: char where
  "DQ = CHR 0x22"

definition truthy :: "string option \<Rightarrow> bool" where
  "truthy v = (case v of None \<Rightarrow> False | Some s \<Rightarrow> s \<noteq> [])"

text \<open>\<open>ToString\<close> of an optional string, as string concatenation and \<open>indexOf\<close> apply it.\<close>

definition str_of :: "string option \<Rightarrow> string" where
  "str_of v = (case v of None \<Rightarrow> ''undefined'' | Some s \<Rightarrow> s)"

text \<open>\<open>a || b\<close> on optional strings.\<close>

definition js_or :: "string option \<Rightarrow> string option \<Rightarrow> string option" where
  "js_or a b = (if truthy a then a else b)"

fun startsWith :: "string \<Rightarrow> string \<Rightarrow> bool" where
  "startsWith s [] = True"
| "startsWith [] (p # ps) = False"
| "startsWith (c # s) (p # ps) = (c = p \<and> startsWith s ps)"

text \<open>\<open>s.indexOf(p)\<close>: the first position where \<open>p\<close> occurs in \<open>s\<close>; \<open>None\<close> stands for -1.\<close>

fun indexOf :: "string \<Rightarrow> string \<Rightarrow> nat option" where
  "indexOf [] p = (if p = [] then Some 0 else None)"
| "indexOf (c # s) p =
     (if startsWith (c # s) p then Some 0 else map_option Suc (indexOf s p))"

text \<open>
  The replacement text of \<open>String.prototype.replace\<close> for a string pattern (no capture
  groups): \<open>$$\<close> is a dollar sign, \<open>$&\<close> the matched text, \<open>$`\<close> and \<open>$'\<close> the text
  before and after the match; every other character stands for itself.
\<close>

fun getSubstitution :: "string \<Rightarrow> string \<Rightarrow> string \<Rightarrow> string \<Rightarrow> string" where
  "getSubstitution m b a [] = []"
| "getSubstitution m b a [c] = [c]"
| "getSubstitution m b a (c # d # r) =
     (if c = CHR ''$'' \<and> d = CHR ''$'' then CHR ''$'' # getSubstitution m b a r
      else if c = CHR ''$'' \<and> d = CHR ''&'' then m @ getSubstitution m b a r
      else if c = CHR ''$'' \<and> d = CHR 0x60 then b @ getSubstitution m b a r
      else if c = CHR ''$'' \<and> d = CHR 0x27 then a @ getSubstitution m b a r
      else c # getSubstitution m b a (d # r))"

text \<open>\<open>s.replace(p, r)\<close> with a string \<open>p\<close>: only the first occurrence is replaced.\<close>

definition replace :: "string \<Rightarrow> string \<Rightarrow> string \<Rightarrow> string" where
  "replace s p r =
     (case indexOf s p of
        None \<Rightarrow> s
      | Some i \<Rightarrow>
          take i s @ getSubstitution p (take i s) (drop (i + length p) s) r
            @ drop (i + length p) s)"

subsection \<open>Data\<close>

datatype js_error = Error string

datatype 'a reply = Failed js_error | Response 'a

text \<open>One entry of \<open>configs/routes\<close>, with the fields the service reads or writes.\<close>

record route_config =
  path :: string
  githubPath :: "string option"
  githubRepo :: "string option"
  githubRef :: "string option"
  pageTitle :: "string option"
  pageTitlePrefix :: "string option"
  pageDescription :: "string option"

type_synonym routes = "(string \<times> route_config) list"

record cache_entry =
  key :: string
  content :: string

record document =
  doc_id :: string
  title :: "string option"
  body :: string
  description :: "string option"
  permalink :: string

record snapshot =
  docs :: "document list"
  index_json :: "document list"

datatype log_entry =
    ConsoleLog string
  | DocNotFound string
  | ConsoleError js_error

record state =
  cache :: "string \<Rightarrow> cache_entry option"
  documents :: "document list"
  index :: "document list"
  console :: "log_entry list"
  indexDb :: "snapshot option"

record libs =
  marked :: "string \<Rightarrow> string"
  base64_decode :: "string \<Rightarrow> string"
  url_resolve :: "string \<Rightarrow> string \<Rightarrow> string"
  satisfies :: "string option \<Rightarrow> string \<Rightarrow> bool"

text \<open>The state of a freshly loaded module: lines 31 to 41.\<close>

definition init :: state where
  "init = \<lparr>cache = (\<lambda>k. None), documents = [], index = [], console = [], indexDb = None\<rparr>"

subsection \<open>fetchGitBranch\<close>

record branch =
  name :: string

text \<open>
  The body of the registry's answer: \<open>version\<close> is \<open>body['dist-tags'].latest\<close> when the body
  and its \<open>dist-tags\<close> are there, and stays \<open>undefined\<close> otherwise.
\<close>

datatype registry_body = NoDistTags | DistTags "string option"

definition latest_version :: "registry_body \<Rightarrow> string option" where
  "latest_version b = (case b of NoDistTags \<Rightarrow> None | DistTags l \<Rightarrow> l)"

text \<open>Lines 232 to 237: a branch name without its leading \<open>v\<close>.\<close>

definition cleaned :: "string \<Rightarrow> string" where
  "cleaned branchName =
     (case branchName of
        [] \<Rightarrow> []
      | c # r \<Rightarrow> if c = CHR ''v'' then r else branchName)"

text \<open>One round of \<open>branches.forEach\<close>: the new value of \<open>githubRef\<close>.\<close>

definition eachBranch :: "libs \<Rightarrow> string option \<Rightarrow> string \<Rightarrow> branch \<Rightarrow> string" where
  "eachBranch L version ref b =
     (if satisfies L version (cleaned (name b)) then name b else ref)"

text \<open>
  \<open>fetchGitBranch pkg cb\<close>, as a function of the two replies; the result is what \<open>cb\<close>
  receives (\<open>Inl\<close> the error). The branches are only asked for once the registry has
  answered.
\<close>

definition registry_url :: "string \<Rightarrow> string" where
  "registry_url pkg = ''http://registry.npmjs.org/'' @ pkg"

definition fetchGitBranch ::
  "libs \<Rightarrow> string \<Rightarrow> registry_body reply \<Rightarrow> branch list reply \<Rightarrow> js_error + string" where
  "fetchGitBranch L pkg registry branches =
     (case registry of
        Failed e \<Rightarrow> Inl (Error (''npm request failed: '' @ registry_url pkg))
      | Response b \<Rightarrow>
          (case branches of
             Failed e \<Rightarrow> Inl (Error (''github branches failed for yahoo/'' @ pkg))
           | Response bs \<Rightarrow> Inr (foldl (eachBranch L (latest_version b)) ''master'' bs)))"

subsection \<open>read\<close>

text \<open>
  What a call of \<open>read\<close> does: the arguments its \<open>callback\<close> receives, when it is called,
  and the arguments of the calls of \<open>fetchAPI\<close> (each one a network request). Properties
  that \<open>cache\<close> inherits from \<open>Object.prototype\<close> are not modelled: a key is in the cache
  when the service has stored it.
\<close>

record read_effect =
  callback_args :: "(js_error option \<times> cache_entry) option"
  fetchAPI_calls :: "string list"

definition read :: "state \<Rightarrow> string \<Rightarrow> read_effect" where
  "read st params_path =
     (case cache st params_path of
        Some entry \<Rightarrow> \<lparr>callback_args = Some (None, entry), fetchAPI_calls = []\<rparr>
      | None \<Rightarrow> \<lparr>callback_args = None, fetchAPI_calls = [params_path]\<rparr>)"

subsection \<open>fetchAPI: the links to other pages\<close>

text \<open>
  The loop of \<open>linkRegex.exec\<close> over \<open>/href="([^\"]+\.md)"/g\<close>. The expression matches at a
  position when \<open>href="\<close> stands there, followed by characters other than the double quote
  that end in \<open>.md\<close> (with at least one character before it) and by a double quote; the
  group is the text between the quotes. After a match the search goes on behind the
  closing quote, otherwise at the next position.
\<close>

definition md_target :: "string \<Rightarrow> bool" where
  "md_target t = (4 \<le> length t \<and> drop (length t - 3) t = ''.md'')"

function md_links :: "string \<Rightarrow> string list" where
  "md_links [] = []"
| "md_links (c # s) =
     (if startsWith (c # s) (''href='' @ [DQ]) then
        (let t = takeWhile (\<lambda>x. x \<noteq> DQ) (drop 6 (c # s));
             after = dropWhile (\<lambda>x. x \<noteq> DQ) (drop 6 (c # s))
         in if after \<noteq> [] \<and> md_target t then t # md_links (tl after) else md_links s)
      else md_links s)"
  by pat_completeness auto
termination
proof (relation "measure length")
  fix c :: char and s t after
  assume "after = dropWhile (\<lambda>x. x \<noteq> DQ) (drop 6 (c # s))"
  then have "length after \<le> length (drop 6 (c # s))"
    using length_dropWhile_le [of "\<lambda>x. x \<noteq> DQ" "drop 6 (c # s)"] by simp
  then show "(tl after, c # s) \<in> measure length"
    by simp
qed simp_all

text \<open>
  Lines 124 to 135: \<open>forEach\<close> visits every route, and the \<open>return\<close> in its callback ends
  one visit only, so \<open>matchedDoc\<close> is the last route that fits.
\<close>

definition route_matches :: "libs \<Rightarrow> string \<Rightarrow> string \<Rightarrow> route_config \<Rightarrow> bool" where
  "route_matches L gp link routeConfig =
     (Some (url_resolve L gp link) = githubPath routeConfig
      \<or> (indexOf link ''http'' \<noteq> None
          \<and> indexOf link (str_of (githubPath routeConfig)) \<noteq> None))"

definition find_route :: "libs \<Rightarrow> routes \<Rightarrow> string \<Rightarrow> string \<Rightarrow> route_config option" where
  "find_route L rs gp link =
     foldl (\<lambda>matchedDoc (routeName, routeConfig).
              if route_matches L gp link routeConfig then Some routeConfig else matchedDoc)
       None rs"

definition broken_link :: "libs \<Rightarrow> string \<Rightarrow> string \<Rightarrow> log_entry" where
  "broken_link L gp link = ConsoleLog (gp @ '' has a broken link to '' @ url_resolve L gp link)"

text \<open>One round of the \<open>while\<close> loop, on the pair of \<open>replacements\<close> and the console.\<close>

definition each_link ::
  "libs \<Rightarrow> routes \<Rightarrow> string \<Rightarrow> (string \<times> string) list \<times> log_entry list \<Rightarrow> string
     \<Rightarrow> (string \<times> string) list \<times> log_entry list" where
  "each_link L rs gp acc link =
     (case find_route L rs gp link of
        None \<Rightarrow> (fst acc, snd acc @ [broken_link L gp link])
      | Some matchedDoc \<Rightarrow> (fst acc @ [(link, path matchedDoc)], snd acc))"

definition collect_links ::
  "libs \<Rightarrow> routes \<Rightarrow> string \<Rightarrow> string list \<Rightarrow> (string \<times> string) list \<times> log_entry list" where
  "collect_links L rs gp links = foldl (each_link L rs gp) ([], []) links"

text \<open>Lines 146 to 148.\<close>

definition apply_replacements :: "string \<Rightarrow> (string \<times> string) list \<Rightarrow> string" where
  "apply_replacements output replacements =
     foldl (\<lambda>out replacement. replace out (fst replacement) (snd replacement))
       output replacements"

text \<open>Lines 112 to 148 together: the rewritten output and what was logged.\<close>

definition replace_md_links ::
  "libs \<Rightarrow> routes \<Rightarrow> string \<Rightarrow> string \<Rightarrow> string \<times> log_entry list" where
  "replace_md_links L rs gp output =
     (let found = collect_links L rs gp (md_links output)
      in (apply_replacements output (fst found), snd found))"

subsection \<open>fetchAPI: the callback of the contents request\<close>

definition make_document :: "route_config \<Rightarrow> string \<Rightarrow> document" where
  "make_document docParams output =
     \<lparr>doc_id = str_of (githubPath docParams),
      title = js_or (pageTitlePrefix docParams) (pageTitle docParams),
      body = output,
      description = pageDescription docParams,
      permalink = path docParams\<rparr>"

text \<open>Lines 108 to 167, for the base64 text \<open>md\<close>.\<close>

definition doc_found ::
  "libs \<Rightarrow> routes \<Rightarrow> route_config \<Rightarrow> string \<Rightarrow> state \<Rightarrow> state \<times> (js_error + cache_entry)" where
  "doc_found L rs docParams md st =
     (let gp = str_of (githubPath docParams);
          rewritten = replace_md_links L rs gp (marked L (base64_decode L md));
          entry = \<lparr>key = gp, content = fst rewritten\<rparr>;
          doc = make_document docParams (fst rewritten)
      in (st\<lparr>console := console st @ snd rewritten,
             cache := (cache st)(gp \<mapsto> entry),
             index := index st @ [doc],
             documents := documents st @ [doc]\<rparr>,
          Inr entry))"

text \<open>Lines 169 to 176.\<close>

definition doc_not_found ::
  "libs \<Rightarrow> route_config \<Rightarrow> state \<Rightarrow> state \<times> (js_error + cache_entry)" where
  "doc_not_found L docParams st =
     (let gp = str_of (githubPath docParams);
          entry = \<lparr>key = gp, content = marked L (''# Doc Not Found: '' @ gp)\<rparr>
      in (st\<lparr>console := console st @ [DocNotFound gp],
             cache := (cache st)(gp \<mapsto> entry)\<rparr>,
          Inr entry))"

text \<open>
  \<open>fetchCallback err res\<close>. The reply carries \<open>res.body && res.body.content\<close>; the second
  component of the result is what \<open>cb\<close> receives.
\<close>

fun fetchCallback ::
  "libs \<Rightarrow> routes \<Rightarrow> route_config \<Rightarrow> string option reply \<Rightarrow> state
     \<Rightarrow> state \<times> (js_error + cache_entry)" where
  "fetchCallback L rs docParams (Failed err) st = (st, Inl err)"
| "fetchCallback L rs docParams (Response md) st =
     (if truthy md then doc_found L rs docParams (str_of md) st
      else doc_not_found L docParams st)"

text \<open>The request that \<open>fetchAPI\<close> hands to \<open>fetchGitHubReposApi\<close>, without the credentials.\<close>

record github_request =
  repo :: string
  api_type :: string
  ref :: "string option"

definition fetchAPI_request :: "route_config \<Rightarrow> github_request" where
  "fetchAPI_request docParams =
     \<lparr>repo = str_of (js_or (githubRepo docParams) (Some ''yahoo/fluxible'')),
      api_type = ''contents/'' @ str_of (githubPath docParams),
      ref = (if truthy (githubRef docParams) then githubRef docParams else None)\<rparr>"

subsection \<open>refreshCacheFromGithub\<close>

text \<open>Lines 294 to 306. A failure of \<open>writeFileSync\<close> is not modelled.\<close>

definition npmFetchesCallback :: "js_error option \<Rightarrow> state \<Rightarrow> state" where
  "npmFetchesCallback err st =
     (case err of
        Some e \<Rightarrow> st\<lparr>console := console st @ [ConsoleError e]\<rparr>
      | None \<Rightarrow> st\<lparr>indexDb := Some \<lparr>docs = documents st, index_json = index st\<rparr>\<rparr>)"

text \<open>
  \<open>async.parallel\<close> (of the async package, versions 0.9 and 1) starts every task and
  counts the ones that have called back without an error. Its final callback is called
  with the first error, and is then replaced by a function that does nothing; without an
  error it is called when the count reaches the number of tasks; with no task at all it
  is called at once. \<open>parallel_loop\<close> handles the replies in the order they arrive in:
  \<open>completed\<close> is the count and \<open>live\<close> tells that the final callback has not been
  replaced.
\<close>

fun parallel_loop ::
  "libs \<Rightarrow> routes \<Rightarrow> nat \<Rightarrow> nat \<Rightarrow> bool \<Rightarrow> (route_config \<times> string option reply) list
     \<Rightarrow> state \<Rightarrow> state" where
  "parallel_loop L rs tasks completed live [] st = st"
| "parallel_loop L rs tasks completed live (settled # rest) st =
     (case snd (fetchCallback L rs (fst settled) (snd settled) st) of
        Inl err \<Rightarrow>
          parallel_loop L rs tasks completed False rest
            (if live then npmFetchesCallback (Some err)
                            (fst (fetchCallback L rs (fst settled) (snd settled) st))
             else fst (fetchCallback L rs (fst settled) (snd settled) st))
      | Inr entry \<Rightarrow>
          parallel_loop L rs tasks (Suc completed) live rest
            (if live \<and> tasks \<le> Suc completed
             then npmFetchesCallback None
                    (fst (fetchCallback L rs (fst settled) (snd settled) st))
             else fst (fetchCallback L rs (fst settled) (snd settled) st)))"

definition parallel ::
  "libs \<Rightarrow> routes \<Rightarrow> nat \<Rightarrow> (route_config \<times> string option reply) list \<Rightarrow> state \<Rightarrow> state" where
  "parallel L rs tasks settled st =
     (if tasks = 0 then npmFetchesCallback None st
      else parallel_loop L rs tasks 0 True settled st)"

text \<open>Lines 281 to 292: \<open>eachRoute\<close> sets the ref of every route and collects the tasks.\<close>

definition eachRoute :: "string \<Rightarrow> string \<Rightarrow> route_config \<Rightarrow> route_config" where
  "eachRoute fluxibleBranch fluxibleAddonsBranch routeConfig =
     routeConfig\<lparr>githubRef :=
       (if githubRepo routeConfig = Some ''yahoo/fluxible'' then Some fluxibleBranch
        else if githubRepo routeConfig = Some ''yahoo/fluxible-addons-react''
        then Some fluxibleAddonsBranch
        else None)\<rparr>"

definition fetches :: "routes \<Rightarrow> route_config list" where
  "fetches rs = filter (\<lambda>routeConfig. truthy (githubPath routeConfig)) (map snd rs)"

text \<open>
  \<open>fetchApiCb\<close>: \<open>github\<close> is the answer of GitHub to a request, and \<open>order\<close> arranges the
  tasks in the order in which their replies arrive. The result is the route table with
  the refs set, and the state once these replies have been handled.
\<close>

definition fetchApiCb ::
  "libs \<Rightarrow> routes \<Rightarrow> string \<Rightarrow> string \<Rightarrow> (github_request \<Rightarrow> string option reply)
     \<Rightarrow> (route_config list \<Rightarrow> route_config list) \<Rightarrow> state \<Rightarrow> routes \<times> state" where
  "fetchApiCb L rs fluxibleBranch fluxibleAddonsBranch github order st =
     (let rs' = map (\<lambda>r. (fst r, eachRoute fluxibleBranch fluxibleAddonsBranch (snd r))) rs;
          settled = map (\<lambda>d. (d, github (fetchAPI_request d))) (order (fetches rs'))
      in (rs', parallel L rs' (length (fetches rs')) settled st))"

text \<open>
  The answers of the outside world during one cycle. \<open>async.auto\<close> runs \<open>fetchApi\<close> once both
  branch tasks have called back without an error; when one of them reports an error the
  task is never run (and \<open>auto\<close> was given no final callback).
\<close>

record world =
  registry :: "string \<Rightarrow> registry_body reply"
  branches :: "string \<Rightarrow> branch list reply"
  contents :: "github_request \<Rightarrow> string option reply"

definition cycle ::
  "libs \<Rightarrow> world \<Rightarrow> (route_config list \<Rightarrow> route_config list) \<Rightarrow> routes \<times> state
     \<Rightarrow> routes \<times> state" where
  "cycle L W order rt =
     (case fetchGitBranch L ''fluxible'' (registry W ''fluxible'') (branches W ''fluxible'') of
        Inl err \<Rightarrow> rt
      | Inr fluxibleBranch \<Rightarrow>
          (case fetchGitBranch L ''fluxible-addons-react''
                  (registry W ''fluxible-addons-react'') (branches W ''fluxible-addons-react'') of
             Inl err \<Rightarrow> rt
           | Inr fluxibleAddonsBranch \<Rightarrow>
               fetchApiCb L (fst rt) fluxibleBranch fluxibleAddonsBranch (contents W) order
                 (snd rt)))"

subsection \<open>The event loop\<close>

text \<open>
  \<open>refreshCacheFromGithub\<close> is called when the module is loaded and again by its own
  timer. The call itself only starts things: \<open>async.auto\<close> runs the two tasks that
  depend on nothing, each of which sends its registry request (lines 198 to 203), and
  then line 310 arms the timer. Replies and timers are handled later, one event at a
  time, in the order in which the platform delivers them; the code does nothing to
  constrain that order.

  \<open>effects\<close> lists what the program has asked of the platform, in program order;
  \<open>timers\<close> holds the delays of the armed timers that have not fired; \<open>started\<close> and
  \<open>settled_cycles\<close> count the cycles that were started and the ones whose replies have
  all been handled. The replies of one cycle are handled in a single event
  (\<open>CycleSettles\<close>, by \<open>cycle\<close>); interleavings of the replies of different cycles are not
  distinguished.
\<close>

datatype effect = HttpGet string | SetTimeout nat

record runtime =
  store :: state
  table :: routes
  effects :: "effect list"
  timers :: "nat list"
  started :: nat
  settled_cycles :: nat

text \<open>Lines 198 to 203: \<open>fetchGitBranch\<close> sends the registry request.\<close>

definition fetchGitBranch_request :: "string \<Rightarrow> runtime \<Rightarrow> runtime" where
  "fetchGitBranch_request pkg rt = rt\<lparr>effects := effects rt @ [HttpGet (registry_url pkg)]\<rparr>"

definition setTimeout :: "nat \<Rightarrow> runtime \<Rightarrow> runtime" where
  "setTimeout ms rt = rt\<lparr>effects := effects rt @ [SetTimeout ms], timers := timers rt @ [ms]\<rparr>"

text \<open>Lines 262 to 311, up to the return of the call.\<close>

definition refreshCacheFromGithub :: "runtime \<Rightarrow> runtime" where
  "refreshCacheFromGithub rt =
     setTimeout (60 * 60 * 1000)
       (fetchGitBranch_request ''fluxible-addons-react''
          (fetchGitBranch_request ''fluxible'' (rt\<lparr>started := Suc (started rt)\<rparr>)))"

datatype event =
    TimerFires
  | CycleSettles world "route_config list \<Rightarrow> route_config list"

text \<open>
  One event. A timer that fires calls \<open>refreshCacheFromGithub\<close>; a cycle that settles has
  had all its replies handled, with the answers of the world \<open>W\<close> arriving in the order
  \<open>order\<close>.
\<close>

fun step :: "libs \<Rightarrow> runtime \<Rightarrow> event \<Rightarrow> runtime" where
  "step L rt TimerFires =
     (case timers rt of
        [] \<Rightarrow> rt
      | ms # rest \<Rightarrow> refreshCacheFromGithub (rt\<lparr>timers := rest\<rparr>))"
| "step L rt (CycleSettles W order) =
     (if settled_cycles rt < started rt
      then rt\<lparr>table := fst (cycle L W order (table rt, store rt)),
              store := snd (cycle L W order (table rt, store rt)),
              settled_cycles := Suc (settled_cycles rt)\<rparr>
      else rt)"

definition run :: "libs \<Rightarrow> event list \<Rightarrow> runtime \<Rightarrow> runtime" where
  "run L events rt = foldl (step L) rt events"

text \<open>The cycles that have been started and have not settled.\<close>

definition in_flight :: "runtime \<Rightarrow> nat" where
  "in_flight rt = started rt - settled_cycles rt"

text \<open>Loading the module: the function of line 262 is called at once.\<close>

definition boot :: "routes \<Rightarrow> runtime" where
  "boot rs =
     refreshCacheFromGithub
       \<lparr>store = init, table = rs, effects = [], timers = [], started = 0, settled_cycles = 0\<rparr>"

subsection \<open>Stand-ins for the packages, and a small site\<close>

text \<open>
  The examples below need concrete functions in \<open>libs\<close>. These are plain stand-ins,
  simpler than the packages: a heading line \<open># t\<close> is rendered as a bare \<open>h1\<close> element
  (\<open>marked\<close> adds an \<open>id\<close> attribute and a line break, and the site's renderer may add
  more) and any other line as a paragraph; the content of a reply is taken to be decoded
  already; a relative link is resolved against the directory of the page, an absolute
  one stands for itself; a version \<open>MAJOR.MINOR.PATCH\<close> satisfies an x-range such as
  \<open>2.x\<close>, and a name that is no range is satisfied by nothing.
\<close>

definition marked_example :: "string \<Rightarrow> string" where
  "marked_example s =
     (if startsWith s ''# '' then ''<h1>'' @ drop 2 s @ ''</h1>'' else ''<p>'' @ s @ ''</p>'')"

definition url_resolve_example :: "string \<Rightarrow> string \<Rightarrow> string" where
  "url_resolve_example from to =
     (if startsWith to ''http://'' \<or> startsWith to ''https://'' \<or> startsWith to ''/''
      then to
      else rev (dropWhile (\<lambda>c. c \<noteq> CHR ''/'') (rev from)) @ to)"

definition split_dots :: "string \<Rightarrow> string list" where
  "split_dots s =
     foldr (\<lambda>c acc. if c = CHR ''.'' then [] # acc else (c # hd acc) # tl acc) s [[]]"

definition is_num :: "string \<Rightarrow> bool" where
  "is_num s = (s \<noteq> [] \<and> list_all (\<lambda>c. c \<in> set ''0123456789'') s)"

definition is_x :: "string \<Rightarrow> bool" where
  "is_x s = (s = ''x'' \<or> s = ''X'' \<or> s = ''*'' \<or> s = [])"

fun x_range :: "string list \<Rightarrow> string list \<Rightarrow> bool" where
  "x_range vs [] = True"
| "x_range [] (r # rs) = is_x r"
| "x_range (v # vs) (r # rs) = (is_x r \<or> (is_num r \<and> r = v \<and> x_range vs rs))"

definition satisfies_example :: "string option \<Rightarrow> string \<Rightarrow> bool" where
  "satisfies_example version rng =
     (case version of
        None \<Rightarrow> False
      | Some v \<Rightarrow>
          length (split_dots v) = 3 \<and> list_all is_num (split_dots v)
          \<and> length (split_dots rng) \<le> 3 \<and> x_range (split_dots v) (split_dots rng))"

definition example_libs :: libs where
  "example_libs =
     \<lparr>marked = marked_example, base64_decode = (\<lambda>s. s),
      url_resolve = url_resolve_example, satisfies = satisfies_example\<rparr>"

definition page :: "string \<Rightarrow> string \<Rightarrow> route_config" where
  "page p gp =
     \<lparr>path = p, githubPath = Some gp, githubRepo = Some ''yahoo/fluxible'', githubRef = None,
      pageTitle = Some ''Docs'', pageTitlePrefix = None, pageDescription = None\<rparr>"

definition home_route :: route_config where
  "home_route =
     \<lparr>path = ''/'', githubPath = None, githubRepo = None, githubRef = None,
      pageTitle = Some ''Home'', pageTitlePrefix = None, pageDescription = None\<rparr>"

definition example_routes :: routes where
  "example_routes =
     [(''home'', home_route),
      (''a'', page ''/docs/a.html'' ''docs/a.md''),
      (''b'', page ''/docs/b.html'' ''docs/b.md'')]"

text \<open>The text \<open>href="t"\<close>.\<close>

definition href :: "string \<Rightarrow> string" where
  "href t = ''href='' @ [DQ] @ t @ [DQ]"

text \<open>
  A world for the examples: both packages are published as 1.0.0 and have the one branch
  \<open>master\<close>; \<open>docs/a.md\<close> has content, and every other file is answered without the field
  \<open>content\<close>.
\<close>

definition example_world :: world where
  "example_world =
     \<lparr>registry = (\<lambda>pkg. Response (DistTags (Some ''1.0.0''))),
      branches = (\<lambda>pkg. Response [\<lparr>name = ''master''\<rparr>]),
      contents = (\<lambda>req. if api_type req = ''contents/docs/a.md'' then Response (Some ''# A'')
                        else Response None)\<rparr>"

text \<open>The same world, except that the request for \<open>docs/a.md\<close> fails and \<open>docs/b.md\<close> has content.\<close>

definition failing_world :: world where
  "failing_world =
     \<lparr>registry = (\<lambda>pkg. Response (DistTags (Some ''1.0.0''))),
      branches = (\<lambda>pkg. Response [\<lparr>name = ''master''\<rparr>]),
      contents = (\<lambda>req. if api_type req = ''contents/docs/a.md'' then Failed (Error ''ETIMEDOUT'')
                        else Response (Some ''# B''))\<rparr>"

text \<open>The world after \<open>docs/a.md\<close> has been removed upstream: no file has content.\<close>

definition vanished_world :: world where
  "vanished_world =
     \<lparr>registry = (\<lambda>pkg. Response (DistTags (Some ''1.0.0''))),
      branches = (\<lambda>pkg. Response [\<lparr>name = ''master''\<rparr>]),
      contents = (\<lambda>req. Response None)\<rparr>"

subsection \<open>Vocabulary of the properties\<close>

definition succeeded :: "'a reply \<Rightarrow> bool" where
  "succeeded r = (case r of Failed e \<Rightarrow> False | Response x \<Rightarrow> True)"

definition has_content :: "string option reply \<Rightarrow> bool" where
  "has_content r = (case r of Failed e \<Rightarrow> False | Response md \<Rightarrow> truthy md)"

text \<open>The page that \<open>fetchCallback\<close> makes of the base64 text \<open>md\<close>: rendered, links rewritten.\<close>

definition rendered :: "libs \<Rightarrow> routes \<Rightarrow> route_config \<Rightarrow> string \<Rightarrow> string" where
  "rendered L rs docParams md =
     fst (replace_md_links L rs (str_of (githubPath docParams)) (marked L (base64_decode L md)))"

text \<open>The documents that one reply adds to \<open>documents\<close> and to the index.\<close>

definition new_docs ::
  "libs \<Rightarrow> routes \<Rightarrow> route_config \<times> string option reply \<Rightarrow> document list" where
  "new_docs L rs settled =
     (case snd settled of
        Failed e \<Rightarrow> []
      | Response md \<Rightarrow>
          if truthy md then [make_document (fst settled) (rendered L rs (fst settled) (str_of md))]
          else [])"

text \<open>The entry that a reply puts into the cache, and the cache after one reply.\<close>

definition stored_entry :: "libs \<Rightarrow> routes \<Rightarrow> route_config \<Rightarrow> string option \<Rightarrow> cache_entry" where
  "stored_entry L rs docParams md =
     \<lparr>key = str_of (githubPath docParams),
      content =
        (if truthy md then rendered L rs docParams (str_of md)
         else marked L (''# Doc Not Found: '' @ str_of (githubPath docParams)))\<rparr>"

definition cache_step ::
  "libs \<Rightarrow> routes \<Rightarrow> (string \<Rightarrow> cache_entry option) \<Rightarrow> route_config \<times> string option reply
     \<Rightarrow> (string \<Rightarrow> cache_entry option)" where
  "cache_step L rs c settled =
     (case snd settled of
        Failed e \<Rightarrow> c
      | Response md \<Rightarrow>
          c(str_of (githubPath (fst settled)) \<mapsto> stored_entry L rs (fst settled) md))"

text \<open>The errors that \<open>console.error(err)\<close> of line 296 has printed, in order.\<close>

definition errors_logged :: "log_entry list \<Rightarrow> js_error list" where
  "errors_logged logs =
     concat (map (\<lambda>l. case l of ConsoleError e \<Rightarrow> [e] | ConsoleLog m \<Rightarrow> [] | DocNotFound p \<Rightarrow> [])
       logs)"

text \<open>The error of the first reply that failed, if any.\<close>

definition first_failure :: "(route_config \<times> string option reply) list \<Rightarrow> js_error list" where
  "first_failure settled =
     (case dropWhile (\<lambda>x. succeeded (snd x)) settled of
        [] \<Rightarrow> []
      | x # rest \<Rightarrow> (case snd x of Failed e \<Rightarrow> [e] | Response md \<Rightarrow> []))"

section \<open>Properties\<close>

subsection \<open>Resolving the branch of a package\<close>

lemma foldl_eachBranch:
  "foldl (eachBranch L v) r bs =
     (if filter (\<lambda>br. satisfies L v (cleaned (name br))) bs = [] then r
      else name (last (filter (\<lambda>br. satisfies L v (cleaned (name br))) bs)))"
proof (induction bs rule: rev_induct)
  case Nil
  show ?case by simp
next
  case (snoc b bs)
  show ?case
  proof (cases "satisfies L v (cleaned (name b))")
    case True
    then show ?thesis
      by (simp add: eachBranch_def)
  next
    case False
    then show ?thesis
      using snoc.IH by (simp add: eachBranch_def)
  qed
qed

lemma foldl_eachBranch_none:
  "\<forall>br\<in>set bs. \<not> satisfies L v (cleaned (name br)) \<Longrightarrow> foldl (eachBranch L v) r bs = r"
  by (induction bs) (simp_all add: eachBranch_def)

text \<open>
  Claim C4, as the code has it. \<open>fetchGitBranch\<close> answers \<open>master\<close> without an error when
  both requests succeed and the published version satisfies none of the cleaned branch
  names. A failed registry request and a failed branch listing are not turned into
  \<open>master\<close>: each hands an \<open>Error\<close> (\<open>npm request failed: ...\<close>, \<open>github branches failed
  for yahoo/...\<close>) to the callback.
\<close>

theorem fetchGitBranch_errors_and_default:
  "fetchGitBranch L pkg (Failed e) bs
     = Inl (Error (''npm request failed: http://registry.npmjs.org/'' @ pkg))
   \<and> fetchGitBranch L pkg (Response b) (Failed e)
     = Inl (Error (''github branches failed for yahoo/'' @ pkg))
   \<and> ((\<forall>br\<in>set bs'. \<not> satisfies L (latest_version b) (cleaned (name br)))
        \<longrightarrow> fetchGitBranch L pkg (Response b) (Response bs') = Inr ''master'')"
  by (simp add: fetchGitBranch_def registry_url_def foldl_eachBranch_none)

theorem fetchGitBranch_errors_and_default_witness:
  "\<not> satisfies example_libs (latest_version (DistTags (Some ''2.3.0''))) (cleaned ''v1.x'')
   \<and> \<not> satisfies example_libs (latest_version (DistTags (Some ''2.3.0''))) (cleaned ''master'')
   \<and> fetchGitBranch example_libs ''fluxible'' (Response (DistTags (Some ''2.3.0'')))
       (Response [\<lparr>name = ''v1.x''\<rparr>, \<lparr>name = ''master''\<rparr>]) = Inr ''master''
   \<and> fetchGitBranch example_libs ''fluxible'' (Response (DistTags (Some ''2.3.0'')))
       (Failed (Error ''ETIMEDOUT'')) = Inl (Error ''github branches failed for yahoo/fluxible'')"
proof -
  have h1: "\<not> satisfies example_libs (latest_version (DistTags (Some ''2.3.0''))) (cleaned ''v1.x'')"
    by code_simp
  have h2: "\<not> satisfies example_libs (latest_version (DistTags (Some ''2.3.0''))) (cleaned ''master'')"
    by code_simp
  show ?thesis
    using h1 h2 fetchGitBranch_errors_and_default [where L = example_libs and pkg = "''fluxible''"
        and e = "Error ''ETIMEDOUT''" and b = "DistTags (Some ''2.3.0'')"
        and bs' = "[\<lparr>name = ''v1.x''\<rparr>, \<lparr>name = ''master''\<rparr>]"]
    by simp
qed

text \<open>
  The claim as written fails when the registry does not answer: the callback receives
  an error, not \<open>master\<close>.
\<close>

theorem fetchGitBranch_registry_failure:
  "fetchGitBranch example_libs ''fluxible'' (Failed (Error ''ETIMEDOUT''))
     (Response [\<lparr>name = ''master''\<rparr>])
     = Inl (Error ''npm request failed: http://registry.npmjs.org/fluxible'')
   \<and> fetchGitBranch example_libs ''fluxible'' (Failed (Error ''ETIMEDOUT''))
       (Response [\<lparr>name = ''master''\<rparr>]) \<noteq> Inr ''master''"
  by (simp add: fetchGitBranch_def registry_url_def)

text \<open>
  Claim C8. When both requests succeed, the result is the name of the last branch of the
  listing whose cleaned name the published version satisfies (\<open>master\<close> when there is
  none). Cleaning removes exactly one leading \<open>v\<close> and leaves any other name as it is. For
  the published version 2.3.0 and the branches v1.x, v2.x, master, in this order, the
  result is \<open>v2.x\<close> (with the stand-in for \<open>semver.satisfies\<close>).
\<close>

theorem last_satisfying_branch_wins:
  "fetchGitBranch L pkg (Response b) (Response bs) =
     Inr (if filter (\<lambda>br. satisfies L (latest_version b) (cleaned (name br))) bs = []
          then ''master''
          else name (last (filter (\<lambda>br. satisfies L (latest_version b) (cleaned (name br))) bs)))
   \<and> cleaned (CHR ''v'' # s) = s
   \<and> (c \<noteq> CHR ''v'' \<longrightarrow> cleaned (c # s') = c # s')
   \<and> fetchGitBranch example_libs pkg (Response (DistTags (Some ''2.3.0'')))
        (Response [\<lparr>name = ''v1.x''\<rparr>, \<lparr>name = ''v2.x''\<rparr>, \<lparr>name = ''master''\<rparr>]) = Inr ''v2.x''"
proof -
  have scenario:
    "foldl (eachBranch example_libs (Some ''2.3.0'')) ''master''
       [\<lparr>name = ''v1.x''\<rparr>, \<lparr>name = ''v2.x''\<rparr>, \<lparr>name = ''master''\<rparr>] = ''v2.x''"
    by code_simp
  show ?thesis
    using scenario
    by (simp add: fetchGitBranch_def foldl_eachBranch latest_version_def cleaned_def)
qed

theorem last_satisfying_branch_wins_witness:
  "fetchGitBranch example_libs ''fluxible'' (Response (DistTags (Some ''2.3.0'')))
     (Response [\<lparr>name = ''v2.x''\<rparr>, \<lparr>name = ''v2.3.x''\<rparr>, \<lparr>name = ''v1.x''\<rparr>]) = Inr ''v2.3.x''
   \<and> cleaned ''vv2.x'' = ''v2.x''
   \<and> cleaned ''master'' = ''master''"
proof -
  have f: "filter (\<lambda>br. satisfies example_libs (latest_version (DistTags (Some ''2.3.0'')))
              (cleaned (name br)))
            [\<lparr>name = ''v2.x''\<rparr>, \<lparr>name = ''v2.3.x''\<rparr>, \<lparr>name = ''v1.x''\<rparr>]
           = [\<lparr>name = ''v2.x''\<rparr>, \<lparr>name = ''v2.3.x''\<rparr>]"
    by code_simp
  note inst = last_satisfying_branch_wins [where L = example_libs and pkg = "''fluxible''"
        and b = "DistTags (Some ''2.3.0'')"
        and bs = "[\<lparr>name = ''v2.x''\<rparr>, \<lparr>name = ''v2.3.x''\<rparr>, \<lparr>name = ''v1.x''\<rparr>]"
        and s = "''v2.x''" and c = "CHR ''m''" and s' = "''aster''"]
  from inst [unfolded f] show ?thesis
    by simp
qed

subsection \<open>Reading a page\<close>

text \<open>
  Claim C9. For a key that is in the cache, \<open>read\<close> calls its callback with no error and
  the cached entry, and calls \<open>fetchAPI\<close> not at all: no request is sent.
\<close>

theorem read_cached:
  "cache st p = Some entry \<Longrightarrow>
     read st p = \<lparr>callback_args = Some (None, entry), fetchAPI_calls = []\<rparr>
     \<and> length (fetchAPI_calls (read st p)) = 0"
  by (simp add: read_def)

theorem read_cached_witness:
  "cache (init\<lparr>cache := (cache init)(''docs/a.md'' \<mapsto> \<lparr>key = ''docs/a.md'', content = ''<h1>A</h1>''\<rparr>)\<rparr>)
     ''docs/a.md'' = Some \<lparr>key = ''docs/a.md'', content = ''<h1>A</h1>''\<rparr>
   \<and> read (init\<lparr>cache := (cache init)(''docs/a.md'' \<mapsto> \<lparr>key = ''docs/a.md'', content = ''<h1>A</h1>''\<rparr>)\<rparr>)
       ''docs/a.md''
     = \<lparr>callback_args = Some (None, \<lparr>key = ''docs/a.md'', content = ''<h1>A</h1>''\<rparr>),
        fetchAPI_calls = []\<rparr>"
  using read_cached [of "init\<lparr>cache := (cache init)(''docs/a.md'' \<mapsto> \<lparr>key = ''docs/a.md'', content = ''<h1>A</h1>''\<rparr>)\<rparr>"
      "''docs/a.md''" "\<lparr>key = ''docs/a.md'', content = ''<h1>A</h1>''\<rparr>"]
  by simp

subsection \<open>One refresh: replies, corpus and snapshot\<close>

lemma npmFetchesCallback_keeps:
  "documents (npmFetchesCallback err st) = documents st"
  "index (npmFetchesCallback err st) = index st"
  "cache (npmFetchesCallback err st) = cache st"
  by (simp_all add: npmFetchesCallback_def split: option.splits)

lemma npmFetchesCallback_error:
  "indexDb (npmFetchesCallback (Some e) st) = indexDb st"
  "console (npmFetchesCallback (Some e) st) = console st @ [ConsoleError e]"
  by (simp_all add: npmFetchesCallback_def)

lemma npmFetchesCallback_save:
  "indexDb (npmFetchesCallback None st) = Some \<lparr>docs = documents st, index_json = index st\<rparr>"
  "console (npmFetchesCallback None st) = console st"
  by (simp_all add: npmFetchesCallback_def)

lemma fetchCallback_documents:
  "documents (fst (fetchCallback L rs d r st)) = documents st @ new_docs L rs (d, r)"
  by (cases r) (simp_all add: new_docs_def doc_found_def doc_not_found_def rendered_def Let_def)

lemma fetchCallback_index:
  "index (fst (fetchCallback L rs d r st)) = index st @ new_docs L rs (d, r)"
  by (cases r) (simp_all add: new_docs_def doc_found_def doc_not_found_def rendered_def Let_def)

lemma fetchCallback_indexDb:
  "indexDb (fst (fetchCallback L rs d r st)) = indexDb st"
  by (cases r) (simp_all add: doc_found_def doc_not_found_def Let_def)

lemma fetchCallback_Failed:
  "snd (fetchCallback L rs d (Failed e) st) = Inl e"
  "fst (fetchCallback L rs d (Failed e) st) = st"
  by simp_all

lemma fetchCallback_Response:
  "\<exists>entry. snd (fetchCallback L rs d (Response md) st) = Inr entry"
  by (simp add: doc_found_def doc_not_found_def Let_def)

lemma parallel_loop_documents:
  "documents (parallel_loop L rs n c live settled st)
     = documents st @ concat (map (new_docs L rs) settled)"
proof (induction settled arbitrary: c live st)
  case Nil
  show ?case by simp
next
  case (Cons x settled)
  obtain d r where x: "x = (d, r)" by (cases x)
  show ?case
  proof (cases r)
    case (Failed e)
    then show ?thesis
      using x by (simp add: Cons.IH npmFetchesCallback_keeps new_docs_def)
  next
    case (Response md)
    obtain entry where "snd (fetchCallback L rs d (Response md) st) = Inr entry"
      using fetchCallback_Response by blast
    then show ?thesis
      using x Response
      by (simp add: Cons.IH npmFetchesCallback_keeps fetchCallback_documents
          del: fetchCallback.simps)
  qed
qed

lemma parallel_loop_index:
  "index (parallel_loop L rs n c live settled st)
     = index st @ concat (map (new_docs L rs) settled)"
proof (induction settled arbitrary: c live st)
  case Nil
  show ?case by simp
next
  case (Cons x settled)
  obtain d r where x: "x = (d, r)" by (cases x)
  show ?case
  proof (cases r)
    case (Failed e)
    then show ?thesis
      using x by (simp add: Cons.IH npmFetchesCallback_keeps new_docs_def)
  next
    case (Response md)
    obtain entry where "snd (fetchCallback L rs d (Response md) st) = Inr entry"
      using fetchCallback_Response by blast
    then show ?thesis
      using x Response
      by (simp add: Cons.IH npmFetchesCallback_keeps fetchCallback_index
          del: fetchCallback.simps)
  qed
qed

lemma parallel_loop_dead:
  "indexDb (parallel_loop L rs n c False settled st) = indexDb st"
proof (induction settled arbitrary: c st)
  case Nil
  show ?case by simp
next
  case (Cons x settled)
  obtain d r where x: "x = (d, r)" by (cases x)
  show ?case
  proof (cases r)
    case (Failed e)
    then show ?thesis
      using x by (simp add: Cons.IH)
  next
    case (Response md)
    obtain entry where "snd (fetchCallback L rs d (Response md) st) = Inr entry"
      using fetchCallback_Response by blast
    then show ?thesis
      using x Response
      by (simp add: Cons.IH fetchCallback_indexDb del: fetchCallback.simps)
  qed
qed

lemma parallel_loop_early:
  "c + length settled < n \<Longrightarrow> indexDb (parallel_loop L rs n c live settled st) = indexDb st"
proof (induction settled arbitrary: c live st)
  case Nil
  show ?case by simp
next
  case (Cons x settled)
  obtain d r where x: "x = (d, r)" by (cases x)
  show ?case
  proof (cases r)
    case (Failed e)
    then show ?thesis
      using x by (simp add: parallel_loop_dead npmFetchesCallback_error)
  next
    case (Response md)
    obtain entry where "snd (fetchCallback L rs d (Response md) st) = Inr entry"
      using fetchCallback_Response by blast
    moreover have "Suc c + length settled < n" "\<not> n \<le> Suc c"
      using Cons.prems by simp_all
    ultimately show ?thesis
      using x Response
      by (simp add: Cons.IH fetchCallback_indexDb del: fetchCallback.simps)
  qed
qed

lemma parallel_loop_all:
  "c + length settled = n \<Longrightarrow> settled \<noteq> [] \<Longrightarrow>
   indexDb (parallel_loop L rs n c True settled st)
     = (if list_all (\<lambda>x. succeeded (snd x)) settled
        then Some \<lparr>docs = documents st @ concat (map (new_docs L rs) settled),
                   index_json = index st @ concat (map (new_docs L rs) settled)\<rparr>
        else indexDb st)"
proof (induction settled arbitrary: c st)
  case Nil
  then show ?case by simp
next
  case (Cons x settled)
  obtain d r where x: "x = (d, r)" by (cases x)
  show ?case
  proof (cases r)
    case (Failed e)
    then show ?thesis
      using x by (simp add: parallel_loop_dead npmFetchesCallback_error succeeded_def)
  next
    case (Response md)
    obtain entry where e: "snd (fetchCallback L rs d (Response md) st) = Inr entry"
      using fetchCallback_Response by blast
    show ?thesis
    proof (cases "settled = []")
      case True
      then have "n \<le> Suc c" using Cons.prems by simp
      then show ?thesis
        using x Response e True
        by (simp add: npmFetchesCallback_save fetchCallback_documents fetchCallback_index
            succeeded_def del: fetchCallback.simps)
    next
      case False
      then have "\<not> n \<le> Suc c" "Suc c + length settled = n"
        using Cons.prems by (cases settled; simp)+
      then show ?thesis
        using x Response e False
        by (simp add: Cons.IH fetchCallback_documents fetchCallback_index
            fetchCallback_indexDb succeeded_def del: fetchCallback.simps)
    qed
  qed
qed


lemma fetchCallback_console:
  "set (console st) \<subseteq> set (console (fst (fetchCallback L rs d r st)))"
  by (cases r) (auto simp: doc_found_def doc_not_found_def Let_def)

lemma npmFetchesCallback_console:
  "set (console st) \<subseteq> set (console (npmFetchesCallback err st))"
  by (auto simp: npmFetchesCallback_def split: option.splits)

lemma parallel_loop_console:
  "set (console st) \<subseteq> set (console (parallel_loop L rs n c live settled st))"
proof (induction settled arbitrary: c live st)
  case Nil
  show ?case by simp
next
  case (Cons x settled)
  let ?st1 = "fst (fetchCallback L rs (fst x) (snd x) st)"
  have 1: "set (console st) \<subseteq> set (console ?st1)"
    by (rule fetchCallback_console)
  have 2: "set (console ?st1) \<subseteq> set (console (npmFetchesCallback err ?st1))" for err
    by (rule npmFetchesCallback_console)
  show ?case
    using 1 2 Cons.IH
    by (simp split: sum.splits del: fetchCallback.simps) (meson subset_trans)
qed

lemma parallel_loop_logs:
  "(d, Failed e) \<in> set settled \<Longrightarrow>
   \<exists>d' e'. (d', Failed e') \<in> set settled
      \<and> ConsoleError e' \<in> set (console (parallel_loop L rs n c True settled st))"
proof (induction settled arbitrary: c st)
  case Nil
  then show ?case by simp
next
  case (Cons x settled)
  obtain d0 r where x: "x = (d0, r)" by (cases x)
  show ?case
  proof (cases r)
    case (Failed e0)
    have "ConsoleError e0 \<in> set (console (npmFetchesCallback (Some e0) st))"
      by (simp add: npmFetchesCallback_error)
    then have "ConsoleError e0
        \<in> set (console (parallel_loop L rs n c False settled (npmFetchesCallback (Some e0) st)))"
      using parallel_loop_console by blast
    then show ?thesis
      using x Failed by auto
  next
    case (Response md)
    obtain entry where e: "snd (fetchCallback L rs d0 (Response md) st) = Inr entry"
      using fetchCallback_Response by blast
    have "(d, Failed e) \<in> set settled"
      using Cons.prems x Response by auto
    from Cons.IH [OF this]
    show ?thesis
      using x Response e by (simp del: fetchCallback.simps)
  qed
qed

lemma parallel_documents:
  "n = length settled \<Longrightarrow>
   documents (parallel L rs n settled st) = documents st @ concat (map (new_docs L rs) settled)"
  by (simp add: parallel_def parallel_loop_documents npmFetchesCallback_keeps)

lemma parallel_index:
  "n = length settled \<Longrightarrow>
   index (parallel L rs n settled st) = index st @ concat (map (new_docs L rs) settled)"
  by (simp add: parallel_def parallel_loop_index npmFetchesCallback_keeps)

lemma parallel_indexDb:
  "indexDb (parallel L rs (length settled) settled st)
     = (if list_all (\<lambda>x. succeeded (snd x)) settled
        then Some \<lparr>docs = documents (parallel L rs (length settled) settled st),
                   index_json = index (parallel L rs (length settled) settled st)\<rparr>
        else indexDb st)"
proof (cases "settled = []")
  case True
  then show ?thesis
    by (simp add: parallel_def npmFetchesCallback_save npmFetchesCallback_keeps)
next
  case False
  then show ?thesis
    using parallel_loop_all [of 0 settled "length settled" L rs st]
    by (simp add: parallel_documents parallel_index) (simp add: parallel_def)
qed

lemma fetchCallback_cache:
  "cache (fst (fetchCallback L rs d r st)) = cache_step L rs (cache st) (d, r)"
  by (cases r)
    (simp_all add: cache_step_def stored_entry_def doc_found_def doc_not_found_def
      rendered_def Let_def)

lemma parallel_loop_cache:
  "cache (parallel_loop L rs n c live settled st) = foldl (cache_step L rs) (cache st) settled"
proof (induction settled arbitrary: c live st)
  case Nil
  show ?case by simp
next
  case (Cons x settled)
  obtain d r where x: "x = (d, r)" by (cases x)
  show ?case
  proof (cases r)
    case (Failed e)
    then show ?thesis
      using x by (simp add: Cons.IH npmFetchesCallback_keeps cache_step_def)
  next
    case (Response md)
    obtain entry where "snd (fetchCallback L rs d (Response md) st) = Inr entry"
      using fetchCallback_Response by blast
    then show ?thesis
      using x Response
      by (simp add: Cons.IH npmFetchesCallback_keeps fetchCallback_cache
          del: fetchCallback.simps)
  qed
qed

lemma parallel_cache:
  "cache (parallel L rs (length settled) settled st) = foldl (cache_step L rs) (cache st) settled"
  by (simp add: parallel_def parallel_loop_cache npmFetchesCallback_keeps)

lemma foldl_cache_step_other:
  "k \<notin> set (map (\<lambda>x. str_of (githubPath (fst x))) settled) \<Longrightarrow>
   foldl (cache_step L rs) c settled k = c k"
  by (induction settled arbitrary: c) (auto simp: cache_step_def split: reply.splits)

lemma foldl_cache_step_stored:
  "distinct (map (\<lambda>x. str_of (githubPath (fst x))) settled) \<Longrightarrow>
   (d, Response md) \<in> set settled \<Longrightarrow>
   foldl (cache_step L rs) c settled (str_of (githubPath d)) = Some (stored_entry L rs d md)"
proof (induction settled arbitrary: c)
  case Nil
  then show ?case by simp
next
  case (Cons x settled)
  show ?case
  proof (cases "x = (d, Response md)")
    case True
    have "str_of (githubPath d) \<notin> set (map (\<lambda>x. str_of (githubPath (fst x))) settled)"
      using Cons.prems(1) True by simp
    then have "foldl (cache_step L rs) (cache_step L rs c x) settled (str_of (githubPath d))
        = cache_step L rs c x (str_of (githubPath d))"
      by (rule foldl_cache_step_other)
    moreover have "cache_step L rs c x (str_of (githubPath d)) = Some (stored_entry L rs d md)"
      using True by (simp add: cache_step_def)
    ultimately show ?thesis
      by simp
  next
    case False
    then have "(d, Response md) \<in> set settled"
      using Cons.prems(2) by simp
    moreover have "distinct (map (\<lambda>x. str_of (githubPath (fst x))) settled)"
      using Cons.prems(1) by simp
    ultimately show ?thesis
      using Cons.IH [of "cache_step L rs c x"] by simp
  qed
qed

lemma errors_logged_append:
  "errors_logged (xs @ ys) = errors_logged xs @ errors_logged ys"
  by (simp add: errors_logged_def)

lemma each_link_errors:
  "errors_logged (snd (each_link L rs gp acc l)) = errors_logged (snd acc)"
  by (simp add: each_link_def broken_link_def errors_logged_def split: option.splits)

lemma foldl_each_link_errors:
  "errors_logged (snd (foldl (each_link L rs gp) acc links)) = errors_logged (snd acc)"
  by (induction links arbitrary: acc) (simp_all add: each_link_errors)

lemma replace_md_links_errors:
  "errors_logged (snd (replace_md_links L rs gp html)) = []"
  using foldl_each_link_errors [of L rs gp "([], [])" "md_links html"]
  by (simp add: replace_md_links_def collect_links_def Let_def errors_logged_def)

lemma fetchCallback_errors:
  "errors_logged (console (fst (fetchCallback L rs d r st))) = errors_logged (console st)"
proof (cases r)
  case (Failed e)
  then show ?thesis by simp
next
  case (Response md)
  have "errors_logged [DocNotFound p] = []" for p
    by (simp add: errors_logged_def)
  then show ?thesis
    using Response
    by (simp add: doc_found_def doc_not_found_def Let_def errors_logged_append
        replace_md_links_errors)
qed

lemma npmFetchesCallback_errors:
  "errors_logged (console (npmFetchesCallback (Some e) st)) = errors_logged (console st) @ [e]"
  "errors_logged (console (npmFetchesCallback None st)) = errors_logged (console st)"
  by (simp_all add: npmFetchesCallback_def errors_logged_def)

lemma parallel_loop_errors_dead:
  "errors_logged (console (parallel_loop L rs n c False settled st)) = errors_logged (console st)"
proof (induction settled arbitrary: c st)
  case Nil
  show ?case by simp
next
  case (Cons x settled)
  obtain d r where x: "x = (d, r)" by (cases x)
  show ?case
  proof (cases r)
    case (Failed e)
    then show ?thesis
      using x by (simp add: Cons.IH)
  next
    case (Response md)
    obtain entry where "snd (fetchCallback L rs d (Response md) st) = Inr entry"
      using fetchCallback_Response by blast
    then show ?thesis
      using x Response
      by (simp add: Cons.IH fetchCallback_errors del: fetchCallback.simps)
  qed
qed

lemma parallel_loop_errors:
  "errors_logged (console (parallel_loop L rs n c True settled st))
     = errors_logged (console st) @ first_failure settled"
proof (induction settled arbitrary: c st)
  case Nil
  show ?case by (simp add: first_failure_def)
next
  case (Cons x settled)
  obtain d r where x: "x = (d, r)" by (cases x)
  show ?case
  proof (cases r)
    case (Failed e)
    then show ?thesis
      using x
      by (simp add: parallel_loop_errors_dead npmFetchesCallback_errors first_failure_def
          succeeded_def)
  next
    case (Response md)
    obtain entry where "snd (fetchCallback L rs d (Response md) st) = Inr entry"
      using fetchCallback_Response by blast
    moreover have "first_failure (x # settled) = first_failure settled"
      using x Response by (simp add: first_failure_def succeeded_def)
    ultimately show ?thesis
      using x Response
      by (simp add: Cons.IH fetchCallback_errors npmFetchesCallback_errors
          del: fetchCallback.simps)
  qed
qed

lemma parallel_errors:
  "errors_logged (console (parallel L rs (length settled) settled st))
     = errors_logged (console st) @ first_failure settled"
proof (cases "settled = []")
  case True
  then show ?thesis
    by (simp add: parallel_def npmFetchesCallback_errors first_failure_def)
next
  case False
  then show ?thesis
    by (simp add: parallel_def parallel_loop_errors)
qed

text \<open>
  Claim C2, as the code has it. A failed fetch does not keep the other replies from being
  handled: every reply that is no failure still writes its entry into the cache, and
  with content it also adds its document to the corpus and to the index. The snapshot,
  however, is written only when every fetch has succeeded, and then after the last of
  them; as soon as one fetch fails, the error of that first failure (and of no later
  one) goes to \<open>console.error\<close> and the snapshot of this cycle is not written. While
  replies are outstanding nothing is written either.
\<close>

theorem persistence_needs_every_fetch:
  "documents (parallel L rs (length settled) settled st)
     = documents st @ concat (map (new_docs L rs) settled)
   \<and> index (parallel L rs (length settled) settled st)
     = index st @ concat (map (new_docs L rs) settled)
   \<and> cache (parallel L rs (length settled) settled st)
     = foldl (cache_step L rs) (cache st) settled
   \<and> (distinct (map (\<lambda>x. str_of (githubPath (fst x))) settled)
        \<longrightarrow> (d, Response md) \<in> set settled
        \<longrightarrow> cache (parallel L rs (length settled) settled st) (str_of (githubPath d))
            = Some (stored_entry L rs d md))
   \<and> indexDb (parallel L rs (length settled) settled st)
     = (if list_all (\<lambda>x. succeeded (snd x)) settled
        then Some \<lparr>docs = documents (parallel L rs (length settled) settled st),
                   index_json = index (parallel L rs (length settled) settled st)\<rparr>
        else indexDb st)
   \<and> errors_logged (console (parallel L rs (length settled) settled st))
     = errors_logged (console st) @ first_failure settled
   \<and> (length settled < n \<longrightarrow> indexDb (parallel L rs n settled st) = indexDb st)"
proof -
  have early: "length settled < n \<longrightarrow> indexDb (parallel L rs n settled st) = indexDb st"
    using parallel_loop_early [of 0 settled n] by (simp add: parallel_def)
  have stored: "distinct (map (\<lambda>x. str_of (githubPath (fst x))) settled)
        \<longrightarrow> (d, Response md) \<in> set settled
        \<longrightarrow> cache (parallel L rs (length settled) settled st) (str_of (githubPath d))
            = Some (stored_entry L rs d md)"
    using foldl_cache_step_stored [of settled d md L rs "cache st"]
    by (simp only: parallel_cache) blast
  show ?thesis
    using early stored parallel_indexDb [of L rs settled st] parallel_errors [of L rs settled st]
      parallel_cache [of L rs settled st] parallel_documents [OF refl, of L rs settled st]
      parallel_index [OF refl, of L rs settled st]
    by blast
qed

theorem persistence_needs_every_fetch_witness:
  "distinct (map (\<lambda>x. str_of (githubPath (fst x)))
      [(page ''/docs/a.html'' ''docs/a.md'', Failed (Error ''ETIMEDOUT'')),
       (page ''/docs/b.html'' ''docs/b.md'', Response (Some ''# B''))])
   \<and> (page ''/docs/b.html'' ''docs/b.md'', Response (Some ''# B''))
     \<in> set [(page ''/docs/a.html'' ''docs/a.md'', Failed (Error ''ETIMEDOUT'')),
            (page ''/docs/b.html'' ''docs/b.md'', Response (Some ''# B''))]
   \<and> length [(page ''/docs/a.html'' ''docs/a.md'', Failed (Error ''ETIMEDOUT'')),
              (page ''/docs/b.html'' ''docs/b.md'', Response (Some ''# B''))] < (3::nat)
   \<and> cache (parallel example_libs example_routes
        (length [(page ''/docs/a.html'' ''docs/a.md'', Failed (Error ''ETIMEDOUT'')),
                 (page ''/docs/b.html'' ''docs/b.md'', Response (Some ''# B''))])
        [(page ''/docs/a.html'' ''docs/a.md'', Failed (Error ''ETIMEDOUT'')),
         (page ''/docs/b.html'' ''docs/b.md'', Response (Some ''# B''))] init) ''docs/b.md''
     = Some \<lparr>key = ''docs/b.md'', content = ''<h1>B</h1>''\<rparr>
   \<and> errors_logged (console (parallel example_libs example_routes
        (length [(page ''/docs/a.html'' ''docs/a.md'', Failed (Error ''ETIMEDOUT'')),
                 (page ''/docs/b.html'' ''docs/b.md'', Response (Some ''# B''))])
        [(page ''/docs/a.html'' ''docs/a.md'', Failed (Error ''ETIMEDOUT'')),
         (page ''/docs/b.html'' ''docs/b.md'', Response (Some ''# B''))] init))
     = [Error ''ETIMEDOUT'']
   \<and> indexDb (parallel example_libs example_routes 3
        [(page ''/docs/a.html'' ''docs/a.md'', Failed (Error ''ETIMEDOUT'')),
         (page ''/docs/b.html'' ''docs/b.md'', Response (Some ''# B''))] init) = None
   \<and> indexDb (parallel example_libs example_routes
        (length [(page ''/docs/a.html'' ''docs/a.md'', Failed (Error ''ETIMEDOUT'')),
                 (page ''/docs/b.html'' ''docs/b.md'', Response (Some ''# B''))])
        [(page ''/docs/a.html'' ''docs/a.md'', Failed (Error ''ETIMEDOUT'')),
         (page ''/docs/b.html'' ''docs/b.md'', Response (Some ''# B''))] init) = None"
proof -
  let ?S = "[(page ''/docs/a.html'' ''docs/a.md'', Failed (Error ''ETIMEDOUT'')),
             (page ''/docs/b.html'' ''docs/b.md'', Response (Some ''# B''))]"
  have h1: "distinct (map (\<lambda>x. str_of (githubPath (fst x))) ?S)"
    by code_simp
  have h2: "(page ''/docs/b.html'' ''docs/b.md'', Response (Some ''# B'')) \<in> set ?S"
    by simp
  have h3: "length ?S < (3::nat)"
    by simp
  have k: "str_of (githubPath (page ''/docs/b.html'' ''docs/b.md'')) = ''docs/b.md''"
    by code_simp
  have e: "stored_entry example_libs example_routes (page ''/docs/b.html'' ''docs/b.md'')
      (Some ''# B'') = \<lparr>key = ''docs/b.md'', content = ''<h1>B</h1>''\<rparr>"
    by code_simp
  have f: "first_failure ?S = [Error ''ETIMEDOUT'']"
    by code_simp
  have g: "\<not> list_all (\<lambda>x. succeeded (snd x)) ?S"
    by code_simp
  have i: "errors_logged (console init) = []" "indexDb init = None"
    by (simp_all add: init_def errors_logged_def)
  note t = persistence_needs_every_fetch [where L = example_libs and rs = example_routes
      and settled = ?S and st = init and d = "page ''/docs/b.html'' ''docs/b.md''"
      and md = "Some ''# B''" and n = 3]
  have c: "cache (parallel example_libs example_routes (length ?S) ?S init) ''docs/b.md''
      = Some \<lparr>key = ''docs/b.md'', content = ''<h1>B</h1>''\<rparr>"
    using t h1 h2 unfolding k e by blast
  have l: "errors_logged (console (parallel example_libs example_routes (length ?S) ?S init))
      = [Error ''ETIMEDOUT'']"
    using t unfolding f i by simp
  have w3: "indexDb (parallel example_libs example_routes 3 ?S init) = None"
    using t h3 unfolding i by blast
  have w2: "indexDb (parallel example_libs example_routes (length ?S) ?S init) = None"
    using t g unfolding i by presburger
  show ?thesis
    using h1 h2 h3 c l w3 w2 by blast
qed

text \<open>
  The claim as written fails on the small site when the request for \<open>docs/a.md\<close> fails
  and the one for \<open>docs/b.md\<close> succeeds: both replies have been handled, the page of
  \<open>docs/b.md\<close> is in the corpus, the error is on the console, and no snapshot has been
  written.
\<close>

theorem failed_fetch_skips_persistence:
  "indexDb (snd (cycle example_libs failing_world (\<lambda>fs. fs) (example_routes, init))) = None
   \<and> map doc_id (documents (snd (cycle example_libs failing_world (\<lambda>fs. fs) (example_routes, init))))
       = [''docs/b.md'']
   \<and> console (snd (cycle example_libs failing_world (\<lambda>fs. fs) (example_routes, init)))
       = [ConsoleError (Error ''ETIMEDOUT'')]"
  by code_simp

lemma doc_ids_of_settled:
  "map doc_id (concat (map (new_docs L rs) (map (\<lambda>d. (d, github (fetchAPI_request d))) ds)))
     = map (\<lambda>d. str_of (githubPath d))
         (filter (\<lambda>d. has_content (github (fetchAPI_request d))) ds)"
  by (induction ds)
    (simp_all add: new_docs_def has_content_def make_document_def split: reply.splits)

text \<open>
  Claim C1, as the code has it. In a cycle that starts with an empty corpus and an empty
  index, once every fetch has called back (in whatever order), the corpus holds exactly
  one document for each route with an upstream path whose reply had content, under that
  path as its id, and no other document; the index was given the same documents. Routes
  whose reply failed or lacked the content have no entry. (What a later cycle does to
  the corpus is not part of this statement.)
\<close>

theorem first_cycle_corpus:
  assumes "documents st = []" and "index st = []"
    and "mset (order (fetches (fst (fetchApiCb L rs b1 b2 github order st))))
           = mset (fetches (fst (fetchApiCb L rs b1 b2 github order st)))"
  shows "mset (map doc_id (documents (snd (fetchApiCb L rs b1 b2 github order st))))
           = mset (map (\<lambda>d. str_of (githubPath d))
               (filter (\<lambda>d. has_content (github (fetchAPI_request d)))
                  (fetches (fst (fetchApiCb L rs b1 b2 github order st)))))
         \<and> index (snd (fetchApiCb L rs b1 b2 github order st))
           = documents (snd (fetchApiCb L rs b1 b2 github order st))"
proof -
  define rs' where "rs' = map (\<lambda>r. (fst r, eachRoute b1 b2 (snd r))) rs"
  define settled where
    "settled = map (\<lambda>d. (d, github (fetchAPI_request d))) (order (fetches rs'))"
  have fst_eq: "fst (fetchApiCb L rs b1 b2 github order st) = rs'"
    by (simp add: fetchApiCb_def rs'_def Let_def)
  have snd_eq: "snd (fetchApiCb L rs b1 b2 github order st)
      = parallel L rs' (length (fetches rs')) settled st"
    by (simp add: fetchApiCb_def rs'_def settled_def Let_def)
  have perm: "mset (order (fetches rs')) = mset (fetches rs')"
    using assms(3) by (simp add: fst_eq)
  have len: "length (fetches rs') = length settled"
    using mset_eq_length [OF perm] by (simp add: settled_def)
  have docs: "documents (parallel L rs' (length (fetches rs')) settled st)
      = concat (map (new_docs L rs') settled)"
    using parallel_documents [OF len, of L rs' st] assms(1) by simp
  have idx: "index (parallel L rs' (length (fetches rs')) settled st)
      = concat (map (new_docs L rs') settled)"
    using parallel_index [OF len, of L rs' st] assms(2) by simp
  have "mset (map doc_id (concat (map (new_docs L rs') settled)))
      = mset (map (\<lambda>d. str_of (githubPath d))
          (filter (\<lambda>d. has_content (github (fetchAPI_request d))) (fetches rs')))"
    unfolding settled_def doc_ids_of_settled
    using perm by simp
  then show ?thesis
    by (simp add: fst_eq snd_eq docs idx)
qed

theorem first_cycle_corpus_witness:
  "documents init = [] \<and> index init = []
   \<and> mset (map doc_id (documents (snd (fetchApiCb example_libs example_routes ''master'' ''master''
        (contents example_world) (\<lambda>fs. fs) init)))) = mset [''docs/a.md'']"
proof -
  have a: "documents init = []" and b: "index init = []"
    by (simp_all add: init_def)
  have r: "map (\<lambda>d. str_of (githubPath d))
             (filter (\<lambda>d. has_content (contents example_world (fetchAPI_request d)))
                (fetches (fst (fetchApiCb example_libs example_routes ''master'' ''master''
                   (contents example_world) (\<lambda>fs. fs) init))))
           = [''docs/a.md'']"
    by code_simp
  note t = first_cycle_corpus [where L = example_libs and rs = example_routes
      and ?b1.0 = "''master''" and ?b2.0 = "''master''" and github = "contents example_world"
      and order = "\<lambda>fs. fs" and st = init, OF a b refl]
  from conjunct1 [OF t] a b show ?thesis
    by (simp only: r simp_thms)
qed

text \<open>
  The claim as written fails on the small site, where \<open>docs/a.md\<close> has content and
  \<open>docs/b.md\<close> has none: after two cycles with the same answers the corpus holds two
  documents for \<open>docs/a.md\<close> and none for \<open>docs/b.md\<close>, although both routes have an
  upstream path. Neither \<open>documents\<close> nor the index is emptied when a cycle starts.
\<close>

theorem corpus_grows_with_every_cycle:
  "map doc_id (documents (snd (cycle example_libs example_world (\<lambda>fs. fs)
       (cycle example_libs example_world (\<lambda>fs. fs) (example_routes, init)))))
     = [''docs/a.md'', ''docs/a.md'']
   \<and> map (githubPath \<circ> snd) example_routes = [None, Some ''docs/a.md'', Some ''docs/b.md'']"
  by code_simp

text \<open>
  What holds of a reply without content: it leaves the corpus, the index and the
  snapshot as they are and stores the stub page in the cache. Over a whole round of
  replies the corpus and the index grow by the documents of the replies with content
  only, and a snapshot written in that round holds this corpus and this index.
\<close>

lemma not_found_reply_adds_nothing:
  "\<not> truthy md \<Longrightarrow>
     documents (fst (fetchCallback L rs d (Response md) st)) = documents st
     \<and> index (fst (fetchCallback L rs d (Response md) st)) = index st
     \<and> indexDb (fst (fetchCallback L rs d (Response md) st)) = indexDb st
     \<and> cache (fst (fetchCallback L rs d (Response md) st)) (str_of (githubPath d))
         = Some \<lparr>key = str_of (githubPath d),
                 content = marked L (''# Doc Not Found: '' @ str_of (githubPath d))\<rparr>
     \<and> documents (parallel L rs (length settled) settled st)
         = documents st @ concat (map (new_docs L rs) (filter (\<lambda>x. has_content (snd x)) settled))
     \<and> index (parallel L rs (length settled) settled st)
         = index st @ concat (map (new_docs L rs) (filter (\<lambda>x. has_content (snd x)) settled))
     \<and> (indexDb (parallel L rs (length settled) settled st) = indexDb st
         \<or> indexDb (parallel L rs (length settled) settled st)
             = Some \<lparr>docs = documents (parallel L rs (length settled) settled st),
                     index_json = index (parallel L rs (length settled) settled st)\<rparr>)"
proof -
  assume nt: "\<not> truthy md"
  have only: "concat (map (new_docs L rs) xs)
      = concat (map (new_docs L rs) (filter (\<lambda>x. has_content (snd x)) xs))" for xs
    by (induction xs) (simp_all add: new_docs_def has_content_def split: reply.splits)
  have step: "fetchCallback L rs d (Response md) st = doc_not_found L d st"
    using nt by simp
  have 1: "documents (fst (doc_not_found L d st)) = documents st"
    and 2: "index (fst (doc_not_found L d st)) = index st"
    and 3: "indexDb (fst (doc_not_found L d st)) = indexDb st"
    and 4: "cache (fst (doc_not_found L d st)) (str_of (githubPath d))
         = Some \<lparr>key = str_of (githubPath d),
                 content = marked L (''# Doc Not Found: '' @ str_of (githubPath d))\<rparr>"
    by (simp_all add: doc_not_found_def Let_def)
  have 5: "documents (parallel L rs (length settled) settled st)
         = documents st @ concat (map (new_docs L rs) (filter (\<lambda>x. has_content (snd x)) settled))"
    using parallel_documents [OF refl, of L rs settled st] only [of settled] by (rule trans [OF _ arg_cong])
  have 6: "index (parallel L rs (length settled) settled st)
         = index st @ concat (map (new_docs L rs) (filter (\<lambda>x. has_content (snd x)) settled))"
    using parallel_index [OF refl, of L rs settled st] only [of settled] by (rule trans [OF _ arg_cong])
  have 7: "indexDb (parallel L rs (length settled) settled st) = indexDb st
         \<or> indexDb (parallel L rs (length settled) settled st)
             = Some \<lparr>docs = documents (parallel L rs (length settled) settled st),
                     index_json = index (parallel L rs (length settled) settled st)\<rparr>"
    by (cases "list_all (\<lambda>x. succeeded (snd x)) settled")
      (simp_all only: parallel_indexDb [of L rs settled st] if_True if_False simp_thms)
  show ?thesis
    unfolding step using 1 2 3 4 5 6 7 by blast
qed

text \<open>
  Claim C10 does not hold of the code. On the small site \<open>docs/a.md\<close> has content in a
  first cycle and is answered without content in the next one. After the second cycle
  the cache holds the stub page for \<open>docs/a.md\<close>, and the document that the first cycle
  made of it is still in the corpus, in the index and in the snapshot written by the
  second cycle: \<open>documents\<close> and the index are never emptied.
\<close>

theorem stub_route_stays_in_corpus:
  "cache (snd (cycle example_libs vanished_world (\<lambda>fs. fs)
       (cycle example_libs example_world (\<lambda>fs. fs) (example_routes, init)))) ''docs/a.md''
     = Some \<lparr>key = ''docs/a.md'', content = marked_example ''# Doc Not Found: docs/a.md''\<rparr>
   \<and> map doc_id (documents (snd (cycle example_libs vanished_world (\<lambda>fs. fs)
       (cycle example_libs example_world (\<lambda>fs. fs) (example_routes, init)))))
     = [''docs/a.md'']
   \<and> map doc_id (index (snd (cycle example_libs vanished_world (\<lambda>fs. fs)
       (cycle example_libs example_world (\<lambda>fs. fs) (example_routes, init)))))
     = [''docs/a.md'']
   \<and> map_option (\<lambda>s. map doc_id (docs s))
       (indexDb (snd (cycle example_libs vanished_world (\<lambda>fs. fs)
          (cycle example_libs example_world (\<lambda>fs. fs) (example_routes, init)))))
     = Some [''docs/a.md'']"
  by code_simp

subsection \<open>The page of a missing file\<close>

text \<open>
  Claim C5, as the code has it. When the reply has no content, \<open>fetchCallback\<close> calls back
  without an error and stores an entry under the upstream path of the route, so that
  \<open>read\<close> serves it from the cache. The body of the entry is not the plain text
  \<open>Doc Not Found: path\<close>: it is what \<open>marked\<close> (with the site's renderer) makes of the
  markdown heading \<open># Doc Not Found: path\<close>.
\<close>

theorem doc_not_found_is_rendered_stub:
  "githubPath d = Some p \<Longrightarrow> \<not> truthy md \<Longrightarrow>
     snd (fetchCallback L rs d (Response md) st)
       = Inr \<lparr>key = p, content = marked L (''# Doc Not Found: '' @ p)\<rparr>
     \<and> cache (fst (fetchCallback L rs d (Response md) st)) p
       = Some \<lparr>key = p, content = marked L (''# Doc Not Found: '' @ p)\<rparr>
     \<and> read (fst (fetchCallback L rs d (Response md) st)) p
       = \<lparr>callback_args = Some (None, \<lparr>key = p, content = marked L (''# Doc Not Found: '' @ p)\<rparr>),
          fetchAPI_calls = []\<rparr>"
  by (simp add: doc_not_found_def read_def str_of_def Let_def)

theorem doc_not_found_is_rendered_stub_witness:
  "githubPath (page ''/docs/b.html'' ''docs/b.md'') = Some ''docs/b.md''
   \<and> \<not> truthy None
   \<and> snd (fetchCallback example_libs example_routes (page ''/docs/b.html'' ''docs/b.md'')
        (Response None) init)
       = Inr \<lparr>key = ''docs/b.md'', content = ''<h1>Doc Not Found: docs/b.md</h1>''\<rparr>"
proof -
  have g: "githubPath (page ''/docs/b.html'' ''docs/b.md'') = Some ''docs/b.md''"
    by (simp add: page_def)
  have h: "\<not> truthy None"
    by (simp add: truthy_def)
  have m: "marked example_libs (''# Doc Not Found: '' @ ''docs/b.md'')
      = ''<h1>Doc Not Found: docs/b.md</h1>''"
    by code_simp
  from doc_not_found_is_rendered_stub [OF g h, where L = example_libs and rs = example_routes
      and st = init] g h
  show ?thesis
    by (simp only: m simp_thms)
qed

text \<open>
  The claim as written fails for \<open>docs/b.md\<close> on the small site: the stored body is the
  rendered heading, which differs from the text \<open>Doc Not Found: docs/b.md\<close>.
\<close>

theorem stub_body_is_a_rendered_heading:
  "map_option content
     (cache (fst (fetchCallback example_libs example_routes (page ''/docs/b.html'' ''docs/b.md'')
        (Response None) init)) ''docs/b.md'')
     = Some ''<h1>Doc Not Found: docs/b.md</h1>''
   \<and> map_option content
     (cache (fst (fetchCallback example_libs example_routes (page ''/docs/b.html'' ''docs/b.md'')
        (Response None) init)) ''docs/b.md'')
     \<noteq> Some ''Doc Not Found: docs/b.md''"
  by code_simp

subsection \<open>Rewriting the links\<close>

lemma each_link_acc:
  "each_link L rs gp acc l
     = (fst acc @ fst (each_link L rs gp ([], []) l), snd acc @ snd (each_link L rs gp ([], []) l))"
  by (simp add: each_link_def split: option.splits)

lemma foldl_each_link:
  "foldl (each_link L rs gp) acc links
     = (fst acc @ fst (collect_links L rs gp links), snd acc @ snd (collect_links L rs gp links))"
proof (induction links arbitrary: acc)
  case Nil
  show ?case by (simp add: collect_links_def)
next
  case (Cons l links)
  have "foldl (each_link L rs gp) acc (l # links)
      = foldl (each_link L rs gp) (each_link L rs gp acc l) links"
    by simp
  also have "\<dots> = (fst (each_link L rs gp acc l) @ fst (collect_links L rs gp links),
      snd (each_link L rs gp acc l) @ snd (collect_links L rs gp links))"
    by (rule Cons.IH)
  finally have 1: "foldl (each_link L rs gp) acc (l # links)
      = (fst (each_link L rs gp acc l) @ fst (collect_links L rs gp links),
         snd (each_link L rs gp acc l) @ snd (collect_links L rs gp links))" .
  have 2: "collect_links L rs gp (l # links)
      = (fst (each_link L rs gp ([], []) l) @ fst (collect_links L rs gp links),
         snd (each_link L rs gp ([], []) l) @ snd (collect_links L rs gp links))"
    using Cons.IH [of "each_link L rs gp ([], []) l"] by (simp add: collect_links_def)
  show ?case
    unfolding 1 2 using each_link_acc [of L rs gp acc l] by simp
qed

lemma collect_links_append:
  "collect_links L rs gp (xs @ ys)
     = (fst (collect_links L rs gp xs) @ fst (collect_links L rs gp ys),
        snd (collect_links L rs gp xs) @ snd (collect_links L rs gp ys))"
proof -
  have "collect_links L rs gp (xs @ ys)
      = foldl (each_link L rs gp) (collect_links L rs gp xs) ys"
    by (simp add: collect_links_def)
  then show ?thesis
    by (simp only: foldl_each_link)
qed

lemma find_route_None:
  "find_route L rs gp l = None \<longleftrightarrow> list_all (\<lambda>r. \<not> route_matches L gp l (snd r)) rs"
proof -
  have "foldl (\<lambda>matchedDoc (routeName, routeConfig).
              if route_matches L gp l routeConfig then Some routeConfig else matchedDoc) m rs = None
        \<longleftrightarrow> m = None \<and> list_all (\<lambda>r. \<not> route_matches L gp l (snd r)) rs" for m
    by (induction rs arbitrary: m) (auto split: prod.splits)
  then show ?thesis
    by (simp add: find_route_def)
qed

lemma collect_links_broken:
  "list_all (\<lambda>l. find_route L rs gp l = None) links \<Longrightarrow>
   collect_links L rs gp links = ([], map (broken_link L gp) links)"
proof (induction links)
  case Nil
  show ?case by (simp add: collect_links_def)
next
  case (Cons l links)
  have "collect_links L rs gp ([l] @ links)
      = (fst (collect_links L rs gp [l]) @ fst (collect_links L rs gp links),
         snd (collect_links L rs gp [l]) @ snd (collect_links L rs gp links))"
    by (rule collect_links_append)
  moreover have "collect_links L rs gp [l] = ([], [broken_link L gp l])"
    using Cons.prems by (simp add: collect_links_def each_link_def)
  ultimately show ?case
    using Cons by simp
qed

text \<open>
  What holds of a link that fits no route under the two tests of lines 127 to 131: it
  adds nothing to \<open>replacements\<close>, the warning is logged, the links before and after it
  are handled as they would be without it, and the callback reports no error. When no
  link of the page fits a route the output is unchanged.
\<close>

lemma unmatched_link_is_logged_and_skipped:
  assumes "list_all (\<lambda>r. \<not> route_matches L gp l (snd r)) rs"
  shows "fst (collect_links L rs gp (ls1 @ l # ls2)) = fst (collect_links L rs gp (ls1 @ ls2))
    \<and> snd (collect_links L rs gp (ls1 @ l # ls2))
        = snd (collect_links L rs gp ls1) @ [broken_link L gp l] @ snd (collect_links L rs gp ls2)
    \<and> (list_all (\<lambda>k. list_all (\<lambda>r. \<not> route_matches L gp k (snd r)) rs) (md_links output)
        \<longrightarrow> replace_md_links L rs gp output = (output, map (broken_link L gp) (md_links output)))
    \<and> (\<exists>entry. snd (fetchCallback L rs d (Response md) st) = Inr entry)"
proof -
  have none: "find_route L rs gp l = None"
    using assms by (simp add: find_route_None)
  have one: "collect_links L rs gp [l] = ([], [broken_link L gp l])"
    using none by (simp add: collect_links_def each_link_def)
  have split: "collect_links L rs gp (ls1 @ l # ls2)
      = (fst (collect_links L rs gp ls1) @ fst (collect_links L rs gp ls2),
         snd (collect_links L rs gp ls1) @ [broken_link L gp l] @ snd (collect_links L rs gp ls2))"
    using collect_links_append [of L rs gp ls1 "[l] @ ls2"]
      collect_links_append [of L rs gp "[l]" ls2] one
    by simp
  have whole: "list_all (\<lambda>k. list_all (\<lambda>r. \<not> route_matches L gp k (snd r)) rs) (md_links output)
        \<longrightarrow> replace_md_links L rs gp output = (output, map (broken_link L gp) (md_links output))"
  proof
    assume "list_all (\<lambda>k. list_all (\<lambda>r. \<not> route_matches L gp k (snd r)) rs) (md_links output)"
    then have "list_all (\<lambda>k. find_route L rs gp k = None) (md_links output)"
      by (simp add: find_route_None)
    then have "collect_links L rs gp (md_links output) = ([], map (broken_link L gp) (md_links output))"
      by (rule collect_links_broken)
    then show "replace_md_links L rs gp output = (output, map (broken_link L gp) (md_links output))"
      by (simp add: replace_md_links_def apply_replacements_def)
  qed
  have a: "fst (collect_links L rs gp (ls1 @ l # ls2)) = fst (collect_links L rs gp (ls1 @ ls2))"
    by (simp only: split collect_links_append [of L rs gp ls1 ls2] fst_conv)
  have b: "snd (collect_links L rs gp (ls1 @ l # ls2))
        = snd (collect_links L rs gp ls1) @ [broken_link L gp l] @ snd (collect_links L rs gp ls2)"
    by (simp only: split snd_conv)
  show ?thesis
    using a b whole fetchCallback_Response [of L rs d md st] by blast
qed

text \<open>
  Claim C7 does not hold of the code. The page \<open>docs/a.md\<close> links to \<open>api/b.md\<close>, which
  fits no route, and then to \<open>b.md\<close>, the page of the route \<open>/docs/b.html\<close>. The warning
  for \<open>api/b.md\<close> is logged and the loop goes on, but the replacement collected for
  \<open>b.md\<close> is applied by \<open>String.prototype.replace\<close> to the first occurrence of that
  text, which stands inside the broken link: the broken link is changed to
  \<open>api//docs/b.html\<close>, and the link to \<open>b.md\<close> is not rewritten.
\<close>

theorem broken_link_is_changed_by_another_replacement:
  "find_route example_libs example_routes ''docs/a.md'' ''api/b.md'' = None
   \<and> md_links (''<p><a '' @ href ''api/b.md'' @ ''>X</a> <a '' @ href ''b.md'' @ ''>B</a></p>'')
     = [''api/b.md'', ''b.md'']
   \<and> replace_md_links example_libs example_routes ''docs/a.md''
       (''<p><a '' @ href ''api/b.md'' @ ''>X</a> <a '' @ href ''b.md'' @ ''>B</a></p>'')
     = (''<p><a '' @ href ''api//docs/b.html'' @ ''>X</a> <a '' @ href ''b.md'' @ ''>B</a></p>'',
        [ConsoleLog ''docs/a.md has a broken link to docs/api/b.md''])"
  by code_simp

text \<open>
  Claim C6 does not hold of the code. The page \<open>docs/a.md\<close> links to \<open>b.md\<close>, which
  resolves to the upstream path of the route \<open>/docs/b.html\<close>, and the text \<open>b.md\<close> also
  stands in the paragraph before the link. \<open>String.prototype.replace\<close> with a string
  pattern replaces the first occurrence of the text, wherever it stands: the paragraph
  text is replaced and the link keeps its \<open>.md\<close> target.
\<close>

theorem link_text_is_replaced_instead_of_link:
  "replace_md_links example_libs example_routes ''docs/a.md''
     (''<p>See b.md: <a '' @ href ''b.md'' @ ''>B</a></p>'')
     = (''<p>See /docs/b.html: <a '' @ href ''b.md'' @ ''>B</a></p>'', [])"
  by code_simp

subsection \<open>The timer of the next refresh\<close>

lemma refreshCacheFromGithub_fields:
  "effects (refreshCacheFromGithub rt)
     = effects rt @ [HttpGet (registry_url ''fluxible''),
                     HttpGet (registry_url ''fluxible-addons-react''),
                     SetTimeout 3600000]"
  "timers (refreshCacheFromGithub rt) = timers rt @ [3600000]"
  "started (refreshCacheFromGithub rt) = Suc (started rt)"
  "settled_cycles (refreshCacheFromGithub rt) = settled_cycles rt"
  "store (refreshCacheFromGithub rt) = store rt"
  "table (refreshCacheFromGithub rt) = table rt"
  by (simp_all add: refreshCacheFromGithub_def setTimeout_def fetchGitBranch_request_def)

lemma timer_fires:
  "timers rt = ms # rest \<Longrightarrow>
   timers (step L rt TimerFires) = rest @ [3600000]
   \<and> started (step L rt TimerFires) = Suc (started rt)
   \<and> settled_cycles (step L rt TimerFires) = settled_cycles rt
   \<and> store (step L rt TimerFires) = store rt"
  by (simp add: refreshCacheFromGithub_fields)

lemma timers_only:
  "timers rt = [ms] \<Longrightarrow>
   timers (run L (replicate n TimerFires) rt) = [if n = 0 then ms else 3600000]
   \<and> started (run L (replicate n TimerFires) rt) = started rt + n
   \<and> settled_cycles (run L (replicate n TimerFires) rt) = settled_cycles rt
   \<and> store (run L (replicate n TimerFires) rt) = store rt"
proof (induction n arbitrary: rt ms)
  case 0
  then show ?case by (simp add: run_def)
next
  case (Suc n)
  have 1: "timers (step L rt TimerFires) = [3600000]"
    and 2: "started (step L rt TimerFires) = Suc (started rt)"
    and 3: "settled_cycles (step L rt TimerFires) = settled_cycles rt"
    and 4: "store (step L rt TimerFires) = store rt"
    using timer_fires [OF Suc.prems, of L] by simp_all
  have "run L (replicate (Suc n) TimerFires) rt
      = run L (replicate n TimerFires) (step L rt TimerFires)"
    by (simp add: run_def)
  then show ?case
    using Suc.IH [OF 1] 2 3 4 by simp
qed

text \<open>
  Claim C3, as the code has it. The call that starts a cycle sends the two registry
  requests of the cycle and arms the timer of the next call right after them, in this
  order and before any reply is handled: the state of the service is still what it was
  and no cycle has settled. A timer that fires starts the next cycle whether or not the
  cycles started before have settled; after \<open>n\<close> firings during which no cycle has
  settled, \<open>n + 1\<close> cycles are in flight together, and one timer is armed.
\<close>

theorem timer_is_armed_when_the_cycle_starts:
  "effects (refreshCacheFromGithub rt)
     = effects rt @ [HttpGet ''http://registry.npmjs.org/fluxible'',
                     HttpGet ''http://registry.npmjs.org/fluxible-addons-react'',
                     SetTimeout 3600000]
   \<and> timers (refreshCacheFromGithub rt) = timers rt @ [3600000]
   \<and> store (refreshCacheFromGithub rt) = store rt
   \<and> started (refreshCacheFromGithub rt) = Suc (started rt)
   \<and> settled_cycles (refreshCacheFromGithub rt) = settled_cycles rt
   \<and> (timers rt \<noteq> [] \<longrightarrow>
        started (step L rt TimerFires) = Suc (started rt)
        \<and> settled_cycles (step L rt TimerFires) = settled_cycles rt
        \<and> store (step L rt TimerFires) = store rt)
   \<and> in_flight (run L (replicate n TimerFires) (boot rs)) = Suc n
   \<and> timers (run L (replicate n TimerFires) (boot rs)) = [3600000]
   \<and> store (run L (replicate n TimerFires) (boot rs)) = init"
proof -
  have fires: "timers rt \<noteq> [] \<longrightarrow>
        started (step L rt TimerFires) = Suc (started rt)
        \<and> settled_cycles (step L rt TimerFires) = settled_cycles rt
        \<and> store (step L rt TimerFires) = store rt"
  proof
    assume "timers rt \<noteq> []"
    then obtain ms rest where "timers rt = ms # rest"
      by (cases "timers rt") auto
    from timer_fires [OF this, of L]
    show "started (step L rt TimerFires) = Suc (started rt)
        \<and> settled_cycles (step L rt TimerFires) = settled_cycles rt
        \<and> store (step L rt TimerFires) = store rt"
      by simp
  qed
  have b: "timers (boot rs) = [3600000]" "started (boot rs) = 1" "settled_cycles (boot rs) = 0"
    "store (boot rs) = init"
    by (simp_all add: boot_def refreshCacheFromGithub_fields)
  have many: "in_flight (run L (replicate n TimerFires) (boot rs)) = Suc n
      \<and> timers (run L (replicate n TimerFires) (boot rs)) = [3600000]
      \<and> store (run L (replicate n TimerFires) (boot rs)) = init"
    using timers_only [OF b(1), of L n] b by (simp add: in_flight_def)
  show ?thesis
    using fires many by (simp add: refreshCacheFromGithub_fields registry_url_def)
qed

theorem timer_is_armed_when_the_cycle_starts_witness:
  "timers (boot example_routes) \<noteq> []
   \<and> started (step example_libs (boot example_routes) TimerFires)
       = Suc (started (boot example_routes))
   \<and> settled_cycles (step example_libs (boot example_routes) TimerFires)
       = settled_cycles (boot example_routes)
   \<and> in_flight (run example_libs (replicate 3 TimerFires) (boot example_routes)) = Suc 3"
proof -
  have h: "timers (boot example_routes) \<noteq> []"
    by (simp add: boot_def refreshCacheFromGithub_fields)
  note t = timer_is_armed_when_the_cycle_starts [where rt = "boot example_routes"
      and L = example_libs and n = 3 and rs = example_routes]
  show ?thesis
    using t h by blast
qed

text \<open>
  The claim as written fails when the module is loaded: once the first call has returned,
  the timer is armed while the first cycle is in flight (its registry requests were sent
  just before, no reply has been handled); and when that timer fires before the cycle
  has settled, two cycles are in flight together. When the cycle settles first, one
  cycle is in flight after the timer has fired.
\<close>

theorem timer_armed_with_requests_outstanding:
  "effects (boot example_routes)
     = [HttpGet ''http://registry.npmjs.org/fluxible'',
        HttpGet ''http://registry.npmjs.org/fluxible-addons-react'',
        SetTimeout 3600000]
   \<and> timers (boot example_routes) = [3600000]
   \<and> in_flight (boot example_routes) = 1
   \<and> documents (store (boot example_routes)) = []
   \<and> in_flight (run example_libs [TimerFires] (boot example_routes)) = 2
   \<and> in_flight (run example_libs [CycleSettles example_world (\<lambda>fs. fs), TimerFires]
        (boot example_routes)) = 1
   \<and> map doc_id (documents (store (run example_libs
        [CycleSettles example_world (\<lambda>fs. fs), TimerFires] (boot example_routes))))
     = [''docs/a.md'']"
proof -
  have b: "effects (boot example_routes)
     = [HttpGet ''http://registry.npmjs.org/fluxible'',
        HttpGet ''http://registry.npmjs.org/fluxible-addons-react'',
        SetTimeout 3600000]"
    "timers (boot example_routes) = [3600000]"
    "started (boot example_routes) = 1"
    "settled_cycles (boot example_routes) = 0"
    "store (boot example_routes) = init"
    "table (boot example_routes) = example_routes"
    by (simp_all add: boot_def refreshCacheFromGithub_fields registry_url_def)
  have first: "in_flight (step example_libs (boot example_routes) TimerFires) = 2"
    using timer_fires [OF b(2), of example_libs] b(3,4) by (simp add: in_flight_def)
  define settled where
    "settled = step example_libs (boot example_routes) (CycleSettles example_world (\<lambda>fs. fs))"
  have s: "timers settled = [3600000]" "started settled = 1" "settled_cycles settled = 1"
    "store settled = snd (cycle example_libs example_world (\<lambda>fs. fs) (example_routes, init))"
    using b by (simp_all add: settled_def)
  have docs: "map doc_id (documents (snd (cycle example_libs example_world (\<lambda>fs. fs)
      (example_routes, init)))) = [''docs/a.md'']"
    by code_simp
  have second: "in_flight (step example_libs settled TimerFires) = 1"
    "store (step example_libs settled TimerFires) = store settled"
    using timer_fires [OF s(1), of example_libs] s(2,3) by (simp_all add: in_flight_def)
  have r1: "run example_libs [TimerFires] (boot example_routes)
      = step example_libs (boot example_routes) TimerFires"
    by (simp add: run_def)
  have r2: "run example_libs [CycleSettles example_world (\<lambda>fs. fs), TimerFires]
      (boot example_routes) = step example_libs settled TimerFires"
    by (simp add: run_def settled_def)
  have i: "in_flight (boot example_routes) = 1" "documents (store (boot example_routes)) = []"
    using b by (simp_all add: in_flight_def init_def)
  show ?thesis
    unfolding r1 r2 using b(1,2) i first second s(4) docs by simp
qed

end
